theory Spec2Isabelle
  imports Main "HOL-Library.Word"
begin

section \<open>The Message class of headers/message.hpp\<close>

text \<open>
  A \<open>Message\<close> owns a buffer \<open>char data[header + maxBytes]\<close> and a length
  \<open>size_t bodyLength_\<close>. Bytes are \<^typ>\<open>char\<close>, the buffer is a list of them (516
  long in every object of the class), \<open>size_t\<close> is a 64-bit word and \<open>int\<close> a 32-bit
  two's complement number, as on the LP64 platforms the program is built for.
  Exceptions of the C++ library and accesses outside an array are values of
  the type \<open>error\<close>.
\<close>

type_synonym size_t = "64 word"

datatype error =
    length_error      \<comment> \<open>\<open>std::length_error\<close>, thrown by the string constructor\<close>
  | out_of_range      \<comment> \<open>\<open>std::out_of_range\<close>, thrown by \<open>substr\<close>\<close>
  | buffer_overrun    \<comment> \<open>an access outside an array: undefined behaviour\<close>

record Message =
  data :: string
  bodyLength :: size_t

definition maxBytes :: nat where
  "maxBytes = 512"

definition header :: nat where
  "header = 4"

definition NUL :: char where
  "NUL = CHR 0x00"

subsection \<open>The C library functions the class calls\<close>

text \<open>
  \<open>isspace\<close> and \<open>isdigit\<close> in the C locale: space, \<open>\t \n \v \f \r\<close>; and
  \<open>'0'\<close> to \<open>'9'\<close>.
\<close>

definition isspace :: "char \<Rightarrow> bool" where
  "isspace c \<longleftrightarrow> c = CHR '' '' \<or> (9 \<le> (of_char c :: nat) \<and> (of_char c :: nat) \<le> 13)"

definition isdigit :: "char \<Rightarrow> bool" where
  "isdigit c \<longleftrightarrow> 48 \<le> (of_char c :: nat) \<and> (of_char c :: nat) \<le> 57"

text \<open>The characters of a C string stored in an array: those before the first NUL.\<close>

definition c_str :: "string \<Rightarrow> string" where
  "c_str buf = takeWhile (\<lambda>c. c \<noteq> NUL) buf"

text \<open>
  \<open>strncpy(dst, src, n)\<close> writes \<open>n\<close> bytes: the characters of \<open>src\<close> up to its
  first NUL, at most \<open>n\<close> of them, and NUL bytes after them.
\<close>

definition strncpy :: "string \<Rightarrow> nat \<Rightarrow> string" where
  "strncpy src n = (let s = c_str (take n src) in s @ replicate (n - length s) NUL)"

text \<open>
  \<open>memcpy(dst + off, src, n)\<close> on a destination array \<open>dst\<close>: the \<open>n\<close> bytes
  from \<open>off\<close> on are replaced by the first \<open>n\<close> bytes of \<open>src\<close>.
\<close>

definition memcpy :: "string \<Rightarrow> nat \<Rightarrow> string \<Rightarrow> nat \<Rightarrow> string" where
  "memcpy dst off src n = take off dst @ take n src @ drop (off + n) dst"

text \<open>
  \<open>atoi\<close> is \<open>strtol\<close> in base 10: white space is skipped, one sign is read,
  then decimal digits as long as there are any; the result is 0 when there is
  no digit. The accumulator is an unbounded integer: on the four characters of
  a header the value lies between -999 and 9999 (lemma \<open>atoi_new_header_range\<close>),
  so the \<open>int\<close> of the program holds it.
\<close>

fun atoi_digits :: "int \<Rightarrow> string \<Rightarrow> int" where
  "atoi_digits acc [] = acc"
| "atoi_digits acc (c # cs) =
     (if isdigit c then atoi_digits (acc * 10 + (int (of_char c) - 48)) cs else acc)"

definition atoi :: "string \<Rightarrow> int" where
  "atoi s =
     (case dropWhile isspace s of
        [] \<Rightarrow> 0
      | c # cs \<Rightarrow>
          if c = CHR ''-'' then - atoi_digits 0 cs
          else if c = CHR ''+'' then atoi_digits 0 cs
          else atoi_digits 0 (c # cs))"

text \<open>
  \<open>sprintf(buf, "%4d", v)\<close>: the decimal digits of \<open>v\<close>, a minus sign before
  them when \<open>v\<close> is negative, and spaces on the left up to a width of 4. The
  output is longer than 4 characters when \<open>v\<close> needs more.
\<close>

fun dec_digits :: "nat \<Rightarrow> string" where
  "dec_digits n =
     (if n < 10 then [char_of (48 + n)]
      else dec_digits (n div 10) @ [char_of (48 + n mod 10)])"

declare dec_digits.simps [simp del]

definition show_int :: "int \<Rightarrow> string" where
  "show_int v = (if v < 0 then CHR ''-'' # dec_digits (nat (- v)) else dec_digits (nat v))"

definition sprintf_4d :: "int \<Rightarrow> string" where
  "sprintf_4d v = (let s = show_int v in replicate (4 - length s) CHR '' '' @ s)"

subsection \<open>Conversions between \<open>size_t\<close> and \<open>int\<close>\<close>

text \<open>
  \<open>static_cast<int>\<close> of a \<open>size_t\<close> keeps the low 32 bits, read as two's
  complement; an \<open>int\<close> assigned to a \<open>size_t\<close> is taken modulo \<open>2 ^ 64\<close>.
\<close>

definition int_of_size_t :: "size_t \<Rightarrow> int" where
  "int_of_size_t n = sint (ucast n :: 32 word)"

definition size_t_of_int :: "int \<Rightarrow> size_t" where
  "size_t_of_int v = word_of_int v"

subsection \<open>The member functions\<close>

text \<open>
  \<open>Message()\<close> sets the length to 0 and leaves the buffer as the memory was,
  which is the argument \<open>uninit\<close>.
\<close>

definition Message_default :: "string \<Rightarrow> Message" where
  "Message_default uninit = \<lparr>data = uninit, bodyLength = 0\<rparr>"

text \<open>
  \<open>getNewBodyLength\<close>: the size of the string, capped at \<open>maxBytes\<close>. The size
  of a \<open>std::string\<close> is below \<open>2 ^ 64\<close>, so the comparison is on the length.
\<close>

definition getNewBodyLength :: "string \<Rightarrow> size_t" where
  "getNewBodyLength message =
     (let newLength = length message in
      if newLength > maxBytes then of_nat maxBytes else of_nat newLength)"

text \<open>
  \<open>encodeHeader\<close>: \<open>sprintf\<close> into \<open>char new_header[header + 1]\<close>, then the first
  \<open>header\<close> bytes go to the front of \<open>data\<close>. An output of more than 4
  characters does not fit the array with its terminator.
\<close>

definition encodeHeader :: "Message \<Rightarrow> error + Message" where
  "encodeHeader m =
     (let new_header = sprintf_4d (int_of_size_t (bodyLength m)) in
      if length new_header > header then Inl buffer_overrun
      else Inr (m\<lparr>data := memcpy (data m) 0 new_header header\<rparr>))"

text \<open>
  \<open>decodeHeader\<close>: the first \<open>header\<close> bytes of \<open>data\<close> are copied with
  \<open>strncpy\<close>, terminated, and read with \<open>atoi\<close>. The comparison with \<open>maxBytes\<close>
  is on \<open>int\<close>; the accepted value is assigned to the \<open>size_t\<close> field.
\<close>

definition new_header_of :: "Message \<Rightarrow> string" where
  "new_header_of m = c_str (strncpy (data m) header @ [NUL])"

definition decodeHeader :: "Message \<Rightarrow> bool \<times> Message" where
  "decodeHeader m =
     (let headerValue = atoi (new_header_of m) in
      if headerValue > int maxBytes then (False, m\<lparr>bodyLength := 0\<rparr>)
      else (True, m\<lparr>bodyLength := size_t_of_int headerValue\<rparr>))"

text \<open>
  \<open>Message(std::string message)\<close>: length, header, then \<open>bodyLength_\<close> bytes of
  \<open>message.c_str()\<close> (the characters of the string and a NUL after them) are
  copied behind the header.
\<close>

definition Message_of_string :: "string \<Rightarrow> string \<Rightarrow> error + Message" where
  "Message_of_string uninit message =
     (let m = \<lparr>data = uninit, bodyLength = getNewBodyLength message\<rparr> in
      case encodeHeader m of
        Inl e \<Rightarrow> Inl e
      | Inr m' \<Rightarrow>
          Inr (m'\<lparr>data := memcpy (data m') header (message @ [NUL]) (unat (bodyLength m'))\<rparr>))"

text \<open>
  \<open>getData\<close>: \<open>int length = header + bodyLength_\<close> is computed in \<open>size_t\<close> and
  converted to \<open>int\<close>; \<open>std::string(data, length)\<close> takes the count as a
  \<open>size_t\<close> again, throws \<open>std::length_error\<close> when it is above \<open>max_size()\<close>
  (every negative \<open>int\<close> is) and reads that many bytes of \<open>data\<close>.
\<close>

definition getData :: "Message \<Rightarrow> error + string" where
  "getData m =
     (let len = int_of_size_t (of_nat header + bodyLength m) in
      if len < 0 then Inl length_error
      else if nat len > length (data m) then Inl buffer_overrun
      else Inr (take (nat len) (data m)))"

text \<open>
  \<open>getBody\<close>: \<open>substr(pos, n)\<close> throws \<open>std::out_of_range\<close> when \<open>pos\<close> is
  beyond the size, and returns at most \<open>n\<close> characters from \<open>pos\<close> on.
\<close>

definition substr :: "string \<Rightarrow> nat \<Rightarrow> nat \<Rightarrow> error + string" where
  "substr s pos n = (if pos > length s then Inl out_of_range else Inr (take n (drop pos s)))"

definition getBody :: "Message \<Rightarrow> error + string" where
  "getBody m =
     (case getData m of
        Inl e \<Rightarrow> Inl e
      | Inr dataStr \<Rightarrow> substr dataStr header (unat (bodyLength m)))"

definition getBodyLength :: "Message \<Rightarrow> size_t" where
  "getBodyLength m = bodyLength m"

subsection \<open>Reading a header as the wire format describes it\<close>

text \<open>
  The number a string of decimal digits denotes, most significant digit first.
  This is the reading of the length field by a peer, not a function of the class.
\<close>

definition decimal_value :: "string \<Rightarrow> nat" where
  "decimal_value ds = foldl (\<lambda>a c. 10 * a + (of_char c - 48)) 0 ds"

subsection \<open>Frames as they arrive from the transport\<close>

text \<open>
  A receive buffer filled by the transport: four header bytes, then 512 body
  bytes (here NUL bytes), in a \<open>Message\<close> made by the default constructor.
\<close>

definition received :: "string \<Rightarrow> Message" where
  "received hdr = Message_default (hdr @ replicate maxBytes NUL)"

section \<open>Facts about the library functions\<close>

subsection \<open>Digits, \<open>sprintf\<close> and \<open>atoi\<close>\<close>

lemma of_char_char_of_digit: "(n::nat) < 10 \<Longrightarrow> (of_char (char_of (48 + n)) :: nat) = 48 + n"
  by (simp add: of_char_of)

lemma isdigit_char_of: "(n::nat) < 10 \<Longrightarrow> isdigit (char_of (48 + n))"
  by (simp add: isdigit_def of_char_char_of_digit)

lemma isdigit_not_isspace: "isdigit c \<Longrightarrow> \<not> isspace c"
  by (auto simp: isdigit_def isspace_def)

lemma isdigit_not_sign: "isdigit c \<Longrightarrow> c \<noteq> CHR ''-'' \<and> c \<noteq> CHR ''+'' \<and> c \<noteq> NUL \<and> c \<noteq> CHR '' ''"
  by (auto simp: isdigit_def NUL_def)

lemma dec_digits_isdigit: "c \<in> set (dec_digits n) \<Longrightarrow> isdigit c"
proof (induction n arbitrary: c rule: dec_digits.induct)
  case (1 n)
  show ?case
  proof (cases "n < 10")
    case True
    with "1.prems" show ?thesis
      by (simp add: dec_digits.simps [of n] isdigit_char_of)
  next
    case False
    with "1.prems" "1.IH" show ?thesis
      by (auto simp: dec_digits.simps [of n] isdigit_char_of)
  qed
qed

lemma dec_digits_not_Nil: "dec_digits n \<noteq> []"
  by (subst dec_digits.simps) simp

lemma atoi_digits_append:
  "\<forall>c\<in>set xs. isdigit c \<Longrightarrow> atoi_digits acc (xs @ ys) = atoi_digits (atoi_digits acc xs) ys"
  by (induction xs arbitrary: acc) auto

lemma atoi_digits_dec: "atoi_digits acc (dec_digits n) = acc * 10 ^ length (dec_digits n) + int n"
proof (induction n arbitrary: acc rule: dec_digits.induct)
  case (1 n)
  show ?case
  proof (cases "n < 10")
    case True
    then show ?thesis
      by (simp add: dec_digits.simps [of n] isdigit_char_of of_char_char_of_digit)
  next
    case False
    have d: "\<forall>c\<in>set (dec_digits (n div 10)). isdigit c"
      by (simp add: dec_digits_isdigit)
    have m: "n mod 10 < 10" by simp
    have "atoi_digits acc (dec_digits n) =
          atoi_digits (atoi_digits acc (dec_digits (n div 10))) [char_of (48 + n mod 10)]"
      using False by (simp add: dec_digits.simps [of n] atoi_digits_append [OF d])
    also have "\<dots> = (acc * 10 ^ length (dec_digits (n div 10)) + int (n div 10)) * 10 + int (n mod 10)"
      using "1.IH" [OF False] by (simp add: isdigit_char_of [OF m] of_char_char_of_digit [OF m])
    also have "\<dots> = acc * 10 ^ length (dec_digits n) + int n"
    proof -
      have "int (n div 10) * 10 + int (n mod 10) = int n"
        by (simp add: zdiv_int zmod_int)
      then show ?thesis
        using False by (simp add: dec_digits.simps [of n] algebra_simps)
    qed
    finally show ?thesis .
  qed
qed

lemma length_dec_digits: "n < 10 ^ Suc k \<Longrightarrow> length (dec_digits n) \<le> Suc k"
proof (induction k arbitrary: n)
  case 0
  then show ?case by (simp add: dec_digits.simps [of n])
next
  case (Suc k)
  show ?case
  proof (cases "n < 10")
    case True
    then show ?thesis by (simp add: dec_digits.simps [of n])
  next
    case False
    from Suc.prems have "n div 10 < 10 ^ Suc k" by simp
    from Suc.IH [OF this] False show ?thesis
      by (simp add: dec_digits.simps [of n])
  qed
qed

lemma length_dec_digits_4: "n \<le> 9999 \<Longrightarrow> length (dec_digits n) \<le> 4"
  using length_dec_digits [of n 3] by simp

lemma show_int_nonneg: "0 \<le> v \<Longrightarrow> show_int v = dec_digits (nat v)"
  by (simp add: show_int_def)

lemma sprintf_4d_nonneg:
  "0 \<le> v \<Longrightarrow> sprintf_4d v = replicate (4 - length (dec_digits (nat v))) CHR '' '' @ dec_digits (nat v)"
  by (simp add: sprintf_4d_def show_int_nonneg Let_def)

lemma length_sprintf_4d: "0 \<le> v \<Longrightarrow> v \<le> 9999 \<Longrightarrow> length (sprintf_4d v) = 4"
  using length_dec_digits_4 [of "nat v"] by (simp add: sprintf_4d_nonneg)

lemma c_str_no_NUL: "NUL \<notin> set s \<Longrightarrow> c_str s = s"
  by (auto simp: c_str_def takeWhile_eq_all_conv)

lemma NUL_notin_sprintf_4d: "0 \<le> v \<Longrightarrow> NUL \<notin> set (sprintf_4d v)"
  using dec_digits_isdigit [of NUL "nat v"] isdigit_not_sign [of NUL]
  by (auto simp: sprintf_4d_nonneg NUL_def)

lemma atoi_pad_digits:
  assumes "ds \<noteq> []" and "\<forall>c\<in>set ds. isdigit c"
  shows "atoi (replicate k CHR '' '' @ ds) = atoi_digits 0 ds"
proof -
  from assms obtain c cs where ds: "ds = c # cs" and c: "isdigit c"
    by (cases ds) auto
  have "dropWhile isspace (replicate k CHR '' '' @ ds) = ds"
    using c by (simp add: ds dropWhile_append isspace_def isdigit_not_isspace [OF c, unfolded isspace_def])
  then show ?thesis
    using isdigit_not_sign [OF c] by (simp add: atoi_def ds)
qed

lemma atoi_sprintf_4d: "0 \<le> v \<Longrightarrow> atoi (sprintf_4d v) = v"
  by (simp add: sprintf_4d_nonneg atoi_pad_digits dec_digits_not_Nil dec_digits_isdigit atoi_digits_dec)

subsection \<open>Word conversions and C strings\<close>

lemma int_of_nat_size_t: "k < 2 ^ 31 \<Longrightarrow> int_of_size_t (of_nat k) = int k"
  by (simp add: int_of_size_t_def sint_uint unsigned_ucast_eq unsigned_of_nat
      take_bit_nat_eq_self signed_take_bit_int_eq_self)

lemma int_of_size_t_small: "unat n < 2 ^ 31 \<Longrightarrow> int_of_size_t n = int (unat n)"
  using int_of_nat_size_t [of "unat n"] by simp

lemma c_str_idem_NUL: "c_str (c_str t @ NUL # u) = c_str t"
  by (simp add: c_str_def takeWhile_append)

lemma new_header_of_eq: "new_header_of m = c_str (take header (data m))"
  by (simp add: new_header_of_def strncpy_def Let_def replicate_append_same c_str_idem_NUL)

lemma encodeHeader_of_nat:
  assumes "k \<le> 9999" and "bodyLength m = of_nat k"
  shows "encodeHeader m = Inr (m\<lparr>data := sprintf_4d (int k) @ drop header (data m)\<rparr>)"
proof -
  have v: "int_of_size_t (bodyLength m) = int k"
    using assms by (simp add: int_of_nat_size_t)
  have l: "length (sprintf_4d (int k)) = 4"
    using assms by (intro length_sprintf_4d) simp_all
  show ?thesis
    by (simp add: encodeHeader_def v l header_def memcpy_def Let_def)
qed

lemma decodeHeader_sprintf:
  assumes h: "take header (data m) = sprintf_4d (int n)"
  shows "decodeHeader m =
    (if n > maxBytes then (False, m\<lparr>bodyLength := 0\<rparr>) else (True, m\<lparr>bodyLength := of_nat n\<rparr>))"
proof -
  have "new_header_of m = sprintf_4d (int n)"
    by (simp add: new_header_of_eq h c_str_no_NUL NUL_notin_sprintf_4d)
  then show ?thesis
    by (simp add: decodeHeader_def atoi_sprintf_4d size_t_of_int_def Let_def)
qed

lemma getData_of_nat:
  assumes "k \<le> maxBytes" and "bodyLength m = of_nat k" and "length (data m) = header + maxBytes"
  shows "getData m = Inr (take (header + k) (data m))"
proof -
  have "of_nat header + bodyLength m = (of_nat (4 + k) :: size_t)"
    by (simp add: header_def assms(2))
  then have "int_of_size_t (of_nat header + bodyLength m) = int (4 + k)"
    using assms(1) by (simp only: maxBytes_def) (rule int_of_nat_size_t, simp)
  moreover have "nat (int (4 + k)) = 4 + k"
    by (rule nat_int)
  ultimately show ?thesis
    using assms(1,3) by (simp add: getData_def header_def maxBytes_def Let_def del: of_nat_add)
qed

lemma getData_small:
  assumes "unat (bodyLength m) \<le> maxBytes" and "length (data m) = header + maxBytes"
  shows "getData m = Inr (take (header + unat (bodyLength m)) (data m))"
  using assms by (intro getData_of_nat) simp_all

lemma getBody_small:
  assumes "unat (bodyLength m) \<le> maxBytes" and "length (data m) = header + maxBytes"
  shows "getBody m = Inr (take (unat (bodyLength m)) (drop header (data m)))"
  using assms
  by (simp add: getBody_def getData_small substr_def drop_take header_def maxBytes_def)

subsection \<open>The constructor from a string\<close>

lemma getNewBodyLength_eq: "getNewBodyLength p = of_nat (min (length p) maxBytes)"
  by (simp add: getNewBodyLength_def min_def)

lemma Message_of_string_eq:
  assumes "length uninit = header + maxBytes" and "k = min (length p) maxBytes"
  shows "Message_of_string uninit p =
    Inr \<lparr>data = sprintf_4d (int k) @ take k p @ drop (header + k) uninit, bodyLength = of_nat k\<rparr>"
proof -
  have k: "k \<le> 512" "k \<le> length p"
    using assms(2) by (simp_all add: maxBytes_def)
  have l: "length (sprintf_4d (int k)) = 4"
    using k by (intro length_sprintf_4d) simp_all
  have u: "unat (of_nat k :: size_t) = k"
    using k by (simp add: unat_of_nat)
  have e: "encodeHeader \<lparr>data = uninit, bodyLength = of_nat k\<rparr> =
      Inr \<lparr>data = sprintf_4d (int k) @ drop header uninit, bodyLength = of_nat k\<rparr>"
    using k by (subst encodeHeader_of_nat [of k]) simp_all
  show ?thesis
    using k assms(1)
    by (simp add: Message_of_string_def getNewBodyLength_eq assms(2) [symmetric] e u memcpy_def l
        header_def Let_def add.commute)
qed

subsection \<open>The range of \<open>atoi\<close> on a header\<close>

lemma atoi_digits_bounds:
  "0 \<le> acc \<Longrightarrow> acc \<le> atoi_digits acc s \<and> atoi_digits acc s < (acc + 1) * 10 ^ length s"
proof (induction s arbitrary: acc)
  case Nil
  then show ?case by simp
next
  case (Cons c cs)
  show ?case
  proof (cases "isdigit c")
    case False
    have "(1::int) \<le> 10 ^ length (c # cs)"
      by (rule one_le_power) simp
    then have "(acc + 1) * 1 \<le> (acc + 1) * 10 ^ length (c # cs)"
      using Cons.prems by (intro mult_left_mono) simp_all
    with False show ?thesis by simp
  next
    case True
    define d where "d = int (of_char c) - 48"
    have d: "0 \<le> d" "d \<le> 9"
      using True by (simp_all add: d_def isdigit_def)
    have "0 \<le> acc * 10 + d"
      using Cons.prems d by simp
    from Cons.IH [OF this]
    have lo: "acc * 10 + d \<le> atoi_digits (acc * 10 + d) cs"
      and hi: "atoi_digits (acc * 10 + d) cs < (acc * 10 + d + 1) * 10 ^ length cs"
      by simp_all
    have "(acc * 10 + d + 1) * 10 ^ length cs \<le> ((acc + 1) * 10) * 10 ^ length cs"
      using d by (intro mult_right_mono) simp_all
    with hi have "atoi_digits (acc * 10 + d) cs < ((acc + 1) * 10) * 10 ^ length cs"
      by (rule less_le_trans)
    also have "((acc + 1) * 10) * 10 ^ length cs = (acc + 1) * 10 ^ length (c # cs)"
      by (simp only: mult.assoc length_Cons power_Suc)
    finally have "atoi_digits (acc * 10 + d) cs < (acc + 1) * 10 ^ length (c # cs)" .
    moreover have "acc \<le> atoi_digits (acc * 10 + d) cs"
      using lo d Cons.prems by simp
    ultimately show ?thesis
      using True by (simp add: d_def)
  qed
qed

lemma atoi_digits_0_range: "length s \<le> 4 \<Longrightarrow> 0 \<le> atoi_digits 0 s \<and> atoi_digits 0 s \<le> 9999"
proof -
  assume l: "length s \<le> 4"
  have "(10::int) ^ length s \<le> 10 ^ 4"
    using l by (intro power_increasing) simp_all
  with atoi_digits_bounds [of 0 s] show ?thesis by simp
qed

lemma atoi_range:
  assumes "length s \<le> 4"
  shows "- 999 \<le> atoi s \<and> atoi s \<le> 9999"
proof (cases "dropWhile isspace s")
  case Nil
  show ?thesis unfolding atoi_def Nil by simp
next
  case (Cons c cs)
  have "length (dropWhile isspace s) \<le> length s"
    by (rule length_dropWhile_le)
  with Cons assms have l: "length cs \<le> 3" by simp
  have "(10::int) ^ length cs \<le> 10 ^ 3"
    using l by (intro power_increasing) simp_all
  with atoi_digits_bounds [of 0 cs]
  have cs: "0 \<le> atoi_digits 0 cs" "atoi_digits 0 cs \<le> 999" by simp_all
  have "length (c # cs) \<le> 4" using l by simp
  from atoi_digits_0_range [OF this] cs show ?thesis
    by (simp add: atoi_def Cons del: atoi_digits.simps)
qed

lemma length_c_str_le: "length (c_str s) \<le> length s"
  by (simp add: c_str_def length_takeWhile_le)

lemma atoi_new_header_range:
  "- 999 \<le> atoi (new_header_of m) \<and> atoi (new_header_of m) \<le> 9999"
proof -
  have "length (new_header_of m) \<le> length (take header (data m))"
    unfolding new_header_of_eq by (rule length_c_str_le)
  then have "length (new_header_of m) \<le> 4"
    by (simp add: header_def)
  then show ?thesis by (rule atoi_range)
qed

subsection \<open>Headers without a number\<close>

lemma atoi_no_digit:
  assumes "\<forall>c\<in>set s. \<not> isdigit c"
  shows "atoi s = 0"
proof (cases "dropWhile isspace s")
  case Nil
  show ?thesis unfolding atoi_def Nil by simp
next
  case (Cons c cs)
  have "set (dropWhile isspace s) \<subseteq> set s"
    by (auto dest: set_dropWhileD)
  with Cons assms have c: "\<not> isdigit c" and cs: "\<forall>x\<in>set cs. \<not> isdigit x"
    by auto
  have "atoi_digits 0 cs = 0"
    using cs by (cases cs) simp_all
  with c show ?thesis
    unfolding atoi_def Cons by simp
qed

lemma atoi_stops:
  assumes "\<forall>w\<in>set ws. isspace w" and "\<not> isspace c" and "\<not> isdigit c"
    and "c \<noteq> CHR ''-''" and "c \<noteq> CHR ''+''"
  shows "atoi (ws @ c # rest) = 0"
proof -
  have "dropWhile isspace (ws @ c # rest) = c # rest"
    using assms(1,2) by (simp add: dropWhile_append)
  then show ?thesis
    using assms(3-5) by (simp add: atoi_def)
qed

lemma isspace_not_NUL: "isspace c \<Longrightarrow> c \<noteq> NUL"
  by (auto simp: isspace_def NUL_def)

lemma c_str_spaces_then:
  assumes "\<forall>w\<in>set ws. isspace w"
  shows "c_str (ws @ c # rest) = (if c = NUL then ws else ws @ c # c_str rest)"
  using assms by (auto simp: c_str_def takeWhile_append dest: isspace_not_NUL)

lemma atoi_all_spaces:
  assumes "\<forall>w\<in>set ws. isspace w"
  shows "atoi ws = 0"
proof -
  have e: "dropWhile isspace ws = []"
    using assms by simp
  show ?thesis unfolding atoi_def e by simp
qed

lemma set_c_str: "set (c_str s) \<subseteq> set s"
  by (auto simp: c_str_def dest: set_takeWhileD)

lemma getBody_empty:
  assumes "length (data m) = header + maxBytes"
  shows "getBody (m\<lparr>bodyLength := 0\<rparr>) = Inr []"
  using assms by (subst getBody_small) simp_all

subsection \<open>The digits \<open>sprintf\<close> writes\<close>

lemma decimal_value_snoc:
  "decimal_value (ds @ [c]) = 10 * decimal_value ds + (of_char c - 48)"
  by (simp add: decimal_value_def)

lemma decimal_value_dec_digits: "decimal_value (dec_digits n) = n"
proof (induction n rule: dec_digits.induct)
  case (1 n)
  show ?case
  proof (cases "n < 10")
    case True
    then show ?thesis
      by (simp add: dec_digits.simps [of n] decimal_value_def of_char_char_of_digit)
  next
    case False
    have m: "n mod 10 < 10" by simp
    from False "1.IH" show ?thesis
      by (simp add: dec_digits.simps [of n] decimal_value_snoc of_char_char_of_digit [OF m])
  qed
qed

lemma hd_dec_digits: "n \<noteq> 0 \<Longrightarrow> hd (dec_digits n) \<noteq> CHR ''0''"
proof (induction n rule: dec_digits.induct)
  case (1 n)
  show ?case
  proof (cases "n < 10")
    case True
    have "(of_char (char_of (48 + n)) :: nat) \<noteq> of_char CHR ''0''"
      using True "1.prems" by (simp add: of_char_char_of_digit)
    then have "char_of (48 + n) \<noteq> CHR ''0''"
      by (auto simp del: of_char_of)
    with True show ?thesis
      by (simp add: dec_digits.simps [of n])
  next
    case False
    then have "n div 10 \<noteq> 0" by simp
    from "1.IH" [OF False this] False show ?thesis
      by (simp add: dec_digits.simps [of n] dec_digits_not_Nil)
  qed
qed

lemma sprintf_4d_0: "sprintf_4d 0 = ''   0''"
  by code_simp

lemma sprintf_4d_7: "sprintf_4d 7 = ''   7''"
  by code_simp

lemma sprintf_4d_512: "sprintf_4d 512 = '' 512''"
  by code_simp

subsection \<open>\<open>decodeHeader\<close> and the buffer\<close>

lemma data_decodeHeader: "data (snd (decodeHeader m)) = data m"
  by (simp add: decodeHeader_def Let_def)

lemma new_header_of_bodyLength: "new_header_of (m\<lparr>bodyLength := n\<rparr>) = new_header_of m"
  by (simp add: new_header_of_def)

subsection \<open>Where the body length stays within \<open>maxBytes\<close>\<close>

text \<open>
  The constructor caps the length, \<open>encodeHeader\<close> does not change it, and
  \<open>decodeHeader\<close> keeps it within the bound whenever the header does not parse to
  a negative number.
\<close>

lemma bodyLength_Message_of_string:
  assumes "length uninit = header + maxBytes" and "Message_of_string uninit p = Inr m"
  shows "unat (bodyLength m) \<le> maxBytes"
proof -
  have "min (length p) maxBytes \<le> 512"
    by (simp add: maxBytes_def)
  then have "unat (of_nat (min (length p) maxBytes) :: size_t) \<le> maxBytes"
    by (simp add: unat_of_nat maxBytes_def)
  with assms(2) show ?thesis
    unfolding Message_of_string_eq [OF assms(1) refl] by auto
qed

lemma bodyLength_encodeHeader: "encodeHeader m = Inr m' \<Longrightarrow> bodyLength m' = bodyLength m"
  by (auto simp: encodeHeader_def Let_def split: if_splits)

lemma bodyLength_decodeHeader_nonneg:
  assumes "0 \<le> atoi (new_header_of m)"
  shows "unat (bodyLength (snd (decodeHeader m))) \<le> maxBytes"
proof (cases "atoi (new_header_of m) > int maxBytes")
  case True
  then show ?thesis by (simp add: decodeHeader_def)
next
  case False
  then have "uint (word_of_int (atoi (new_header_of m)) :: size_t) = atoi (new_header_of m)"
    using assms by (simp add: uint_word_of_int maxBytes_def)
  then have "unat (word_of_int (atoi (new_header_of m)) :: size_t) = nat (atoi (new_header_of m))"
    by (simp add: unat_eq_nat_uint)
  with False assms show ?thesis
    by (simp add: decodeHeader_def size_t_of_int_def)
qed

text \<open>The definitions that evaluate a frame given by its bytes.\<close>

lemmas eval_defs = received_def Message_default_def new_header_of_def strncpy_def c_str_def
  atoi_def isspace_def isdigit_def NUL_def header_def maxBytes_def decodeHeader_def
  size_t_of_int_def Let_def

section \<open>Round trip\<close>

text \<open>
  C1. For every payload \<open>p\<close> of at most 512 bytes, and whatever the buffer held
  before, \<open>Message(p)\<close> returns a frame on which \<open>decodeHeader\<close> returns true,
  after which \<open>bodyLength_\<close> is the length of \<open>p\<close> and \<open>getBody\<close> returns \<open>p\<close>.
  The length is read back from the header bytes: whatever length \<open>b\<close> a frame
  with these bytes held before, \<open>decodeHeader\<close> returns true on it, sets
  \<open>bodyLength_\<close> to the length of \<open>p\<close>, and \<open>getBody\<close> then returns \<open>p\<close>.
\<close>

theorem round_trip:
  assumes "length p \<le> maxBytes" and "length uninit = header + maxBytes"
  shows "\<exists>m. Message_of_string uninit p = Inr m \<and>
             fst (decodeHeader m) \<and>
             unat (bodyLength (snd (decodeHeader m))) = length p \<and>
             getBody (snd (decodeHeader m)) = Inr p \<and>
             (\<forall>b. fst (decodeHeader (m\<lparr>bodyLength := b\<rparr>)) \<and>
                  data (snd (decodeHeader (m\<lparr>bodyLength := b\<rparr>))) = data m \<and>
                  unat (bodyLength (snd (decodeHeader (m\<lparr>bodyLength := b\<rparr>)))) = length p \<and>
                  getBody (snd (decodeHeader (m\<lparr>bodyLength := b\<rparr>))) = Inr p)"
proof -
  define m where "m = \<lparr>data = sprintf_4d (int (length p)) @ take (length p) p @
      drop (header + length p) uninit, bodyLength = of_nat (length p)\<rparr>"
  have c: "Message_of_string uninit p = Inr m"
    unfolding m_def using assms by (intro Message_of_string_eq) simp_all
  have l: "length (sprintf_4d (int (length p))) = 4"
    using assms(1) by (intro length_sprintf_4d) (simp_all add: maxBytes_def)
  have h: "take header (data (m\<lparr>bodyLength := b\<rparr>)) = sprintf_4d (int (length p))" for b
    by (simp add: m_def header_def l)
  have d: "decodeHeader (m\<lparr>bodyLength := b\<rparr>) = (True, m)" for b
    using assms(1) by (simp add: decodeHeader_sprintf [OF h]) (simp add: m_def)
  have d0: "decodeHeader m = (True, m)"
    using d [of "bodyLength m"] by simp
  have u: "unat (bodyLength m) = length p"
    using assms(1) by (simp add: m_def unat_of_nat maxBytes_def)
  have len: "length (data m) = header + maxBytes"
    using assms by (simp add: m_def l header_def maxBytes_def)
  have b: "getBody m = Inr p"
    using assms(1) len by (subst getBody_small) (simp_all add: u, simp add: m_def l header_def)
  have "Message_of_string uninit p = Inr m \<and>
      fst (decodeHeader m) \<and>
      unat (bodyLength (snd (decodeHeader m))) = length p \<and>
      getBody (snd (decodeHeader m)) = Inr p \<and>
      (\<forall>b. fst (decodeHeader (m\<lparr>bodyLength := b\<rparr>)) \<and>
           data (snd (decodeHeader (m\<lparr>bodyLength := b\<rparr>))) = data m \<and>
           unat (bodyLength (snd (decodeHeader (m\<lparr>bodyLength := b\<rparr>)))) = length p \<and>
           getBody (snd (decodeHeader (m\<lparr>bodyLength := b\<rparr>))) = Inr p)"
    using c u b by (simp add: d d0)
  then show ?thesis ..
qed

theorem round_trip_witness:
  "length ''hello'' \<le> maxBytes \<and> length (replicate 516 CHR ''x'') = header + maxBytes \<and>
   (\<exists>m. Message_of_string (replicate 516 CHR ''x'') ''hello'' = Inr m \<and>
        fst (decodeHeader m) \<and>
        unat (bodyLength (snd (decodeHeader m))) = length ''hello'' \<and>
        getBody (snd (decodeHeader m)) = Inr ''hello'' \<and>
        fst (decodeHeader (m\<lparr>bodyLength := 0\<rparr>)) \<and>
        unat (bodyLength (snd (decodeHeader (m\<lparr>bodyLength := 0\<rparr>)))) = 5 \<and>
        getBody (snd (decodeHeader (m\<lparr>bodyLength := 0\<rparr>))) = Inr ''hello'')"
proof -
  have a: "length ''hello'' \<le> maxBytes"
    by (simp add: maxBytes_def)
  have b: "length (replicate 516 CHR ''x'') = header + maxBytes"
    by (simp add: maxBytes_def header_def)
  from round_trip [OF a b] obtain m where
    m: "Message_of_string (replicate 516 CHR ''x'') ''hello'' = Inr m"
      "fst (decodeHeader m)"
      "unat (bodyLength (snd (decodeHeader m))) = length ''hello''"
      "getBody (snd (decodeHeader m)) = Inr ''hello''"
    and every: "\<forall>b. fst (decodeHeader (m\<lparr>bodyLength := b\<rparr>)) \<and>
      data (snd (decodeHeader (m\<lparr>bodyLength := b\<rparr>))) = data m \<and>
      unat (bodyLength (snd (decodeHeader (m\<lparr>bodyLength := b\<rparr>)))) = length ''hello'' \<and>
      getBody (snd (decodeHeader (m\<lparr>bodyLength := b\<rparr>))) = Inr ''hello''"
    by blast
  from every have z: "fst (decodeHeader (m\<lparr>bodyLength := 0\<rparr>))"
    "unat (bodyLength (snd (decodeHeader (m\<lparr>bodyLength := 0\<rparr>)))) = 5"
    "getBody (snd (decodeHeader (m\<lparr>bodyLength := 0\<rparr>))) = Inr ''hello''"
    by simp_all
  from a b m z show ?thesis by blast
qed

section \<open>The bound on the body length\<close>

text \<open>
  C2. The body length is meant to stay at most \<open>maxBytes\<close> after every operation.
  \<open>decodeHeader\<close> compares the parsed \<open>int\<close> with \<open>maxBytes\<close> and assigns it to the
  unsigned field: on the header \<open>"  -1"\<close> it returns true and leaves
  \<open>bodyLength_ = 2 ^ 64 - 1\<close>, which is above \<open>maxBytes\<close>.
\<close>

theorem decodeHeader_negative_exceeds_maxBytes:
  "length (data (received ''  -1'')) = header + maxBytes \<and>
   decodeHeader (received ''  -1'') =
     (True, (received ''  -1'')\<lparr>bodyLength := 18446744073709551615\<rparr>) \<and>
   unat (bodyLength (snd (decodeHeader (received ''  -1'')))) > maxBytes"
  by (simp add: eval_defs unsigned_minus_1_eq_mask mask_eq_exp_minus_1)

section \<open>Headers that parse to zero or below\<close>

text \<open>
  C3, as amended. For every frame whose header parses to zero, \<open>decodeHeader\<close>
  returns true and sets \<open>bodyLength_\<close> to 0.
\<close>

theorem decodeHeader_zero:
  "atoi (new_header_of m) = 0 \<Longrightarrow> decodeHeader m = (True, m\<lparr>bodyLength := 0\<rparr>)"
  by (simp add: decodeHeader_def size_t_of_int_def)

theorem decodeHeader_zero_witness:
  "atoi (new_header_of ((received ''   0'')\<lparr>bodyLength := 7\<rparr>)) = 0 \<and>
   decodeHeader ((received ''   0'')\<lparr>bodyLength := 7\<rparr>) = (True, received ''   0'')"
proof -
  have h: "atoi (new_header_of ((received ''   0'')\<lparr>bodyLength := 7\<rparr>)) = 0"
    by (simp add: eval_defs)
  show ?thesis
    using h decodeHeader_zero [OF h] by (simp add: received_def Message_default_def)
qed

text \<open>
  C3 as stated fails for a negative value: the header \<open>" -12"\<close> parses to -12,
  \<open>decodeHeader\<close> returns true, and \<open>bodyLength_\<close>, which is unsigned, is
  \<open>2 ^ 64 - 12\<close> and not -12.
\<close>

theorem decodeHeader_negative_not_literal:
  "atoi (new_header_of (received '' -12'')) = - 12 \<and>
   fst (decodeHeader (received '' -12'')) \<and>
   uint (bodyLength (snd (decodeHeader (received '' -12'')))) = 18446744073709551604 \<and>
   uint (bodyLength (snd (decodeHeader (received '' -12'')))) \<noteq> atoi (new_header_of (received '' -12''))"
  by (simp add: eval_defs)

section \<open>Rejection of oversize headers\<close>

text \<open>
  C4. \<open>decodeHeader\<close> returns a boolean on every frame. It returns false exactly
  when the parsed value of the header is above 512, and then \<open>bodyLength_\<close> is 0
  and the buffer is as before; so it is for every header that \<open>encodeHeader\<close>
  would write for a length from 513 to 9999, and for the bytes \<open>"9999"\<close>.
\<close>

theorem decode_rejection:
  "(\<not> fst (decodeHeader m) \<longleftrightarrow> atoi (new_header_of m) > 512) \<and>
   (atoi (new_header_of m) > 512 \<longrightarrow> decodeHeader m = (False, m\<lparr>bodyLength := 0\<rparr>)) \<and>
   (512 < n \<and> n \<le> 9999 \<and> take header (data m) = sprintf_4d (int n) \<longrightarrow>
      decodeHeader m = (False, m\<lparr>bodyLength := 0\<rparr>)) \<and>
   (take header (data m) = ''9999'' \<longrightarrow> decodeHeader m = (False, m\<lparr>bodyLength := 0\<rparr>))"
proof -
  have a: "\<not> fst (decodeHeader m) \<longleftrightarrow> atoi (new_header_of m) > 512"
    by (simp add: decodeHeader_def maxBytes_def Let_def)
  have b: "atoi (new_header_of m) > 512 \<longrightarrow> decodeHeader m = (False, m\<lparr>bodyLength := 0\<rparr>)"
    by (simp add: decodeHeader_def maxBytes_def Let_def)
  have c: "512 < n \<and> n \<le> 9999 \<and> take header (data m) = sprintf_4d (int n) \<longrightarrow>
      decodeHeader m = (False, m\<lparr>bodyLength := 0\<rparr>)"
    by (simp add: decodeHeader_sprintf maxBytes_def)
  have d: "take header (data m) = ''9999'' \<longrightarrow> decodeHeader m = (False, m\<lparr>bodyLength := 0\<rparr>)"
    by (simp add: decodeHeader_def new_header_of_eq c_str_def atoi_def isspace_def isdigit_def
        NUL_def maxBytes_def)
  from a b c d show ?thesis by blast
qed

theorem decode_rejection_witness:
  "atoi (new_header_of ((received ''9999'')\<lparr>bodyLength := 5\<rparr>)) > 512 \<and>
   \<not> fst (decodeHeader ((received ''9999'')\<lparr>bodyLength := 5\<rparr>)) \<and>
   decodeHeader ((received ''9999'')\<lparr>bodyLength := 5\<rparr>) = (False, received ''9999'')"
proof -
  have h: "atoi (new_header_of ((received ''9999'')\<lparr>bodyLength := 5\<rparr>)) > 512"
    by (simp add: eval_defs)
  show ?thesis
    using h decode_rejection [of "(received ''9999'')\<lparr>bodyLength := 5\<rparr>" 9999]
    by (simp add: received_def Message_default_def)
qed

section \<open>Truncation\<close>

text \<open>
  C5. For every payload \<open>p\<close> of more than 512 bytes, and whatever the buffer held
  before, \<open>Message(p)\<close> returns a frame, its \<open>bodyLength_\<close> is 512, and the 512 bytes
  behind the header, which are also what \<open>getBody\<close> returns, are the first 512
  bytes of \<open>p\<close>.
\<close>

theorem truncation:
  assumes "length p > maxBytes" and "length uninit = header + maxBytes"
  shows "\<exists>m. Message_of_string uninit p = Inr m \<and>
             bodyLength m = 512 \<and>
             length (data m) = header + maxBytes \<and>
             drop header (data m) = take 512 p \<and>
             getBody m = Inr (take 512 p)"
proof -
  define m where "m = \<lparr>data = sprintf_4d (int maxBytes) @ take maxBytes p @
      drop (header + maxBytes) uninit, bodyLength = of_nat maxBytes\<rparr>"
  have c: "Message_of_string uninit p = Inr m"
    unfolding m_def using assms by (intro Message_of_string_eq) simp_all
  have l: "length (sprintf_4d (int maxBytes)) = 4"
    by (intro length_sprintf_4d) (simp_all add: maxBytes_def)
  have d: "data m = sprintf_4d (int maxBytes) @ take 512 p"
    using assms by (simp add: m_def maxBytes_def)
  have len: "length (data m) = header + maxBytes"
    using assms l by (simp add: d maxBytes_def header_def)
  have u: "unat (bodyLength m) = maxBytes"
    by (simp add: m_def maxBytes_def)
  have b: "getBody m = Inr (take 512 p)"
    using len assms(1) l
    by (subst getBody_small) (simp_all add: u, simp add: d header_def maxBytes_def)
  have r: "drop header (data m) = take 512 p"
    using l by (simp add: d header_def)
  have w: "bodyLength m = 512"
    by (simp add: m_def maxBytes_def)
  show ?thesis
    using c w len r b by blast
qed

theorem truncation_witness:
  "length (replicate 600 CHR ''a'') > maxBytes \<and>
   length (replicate 516 CHR ''x'') = header + maxBytes \<and>
   (\<exists>m. Message_of_string (replicate 516 CHR ''x'') (replicate 600 CHR ''a'') = Inr m \<and>
        bodyLength m = 512 \<and>
        length (data m) = header + maxBytes \<and>
        drop header (data m) = replicate 512 CHR ''a'' \<and>
        getBody m = Inr (replicate 512 CHR ''a''))"
  using truncation [of "replicate 600 CHR ''a''" "replicate 516 CHR ''x''"]
  by (simp add: maxBytes_def header_def)

section \<open>The format of the header\<close>

text \<open>
  C6. For every frame whose \<open>bodyLength_\<close> is a number \<open>n\<close> from 0 to 9999,
  \<open>encodeHeader\<close> replaces the first 4 bytes of the buffer, and nothing else, by
  spaces followed by the decimal digits of \<open>n\<close>: the digits are not empty, each is
  one of \<open>'0'\<close> to \<open>'9'\<close>, they denote \<open>n\<close>, and the first is not \<open>'0'\<close> unless
  \<open>n\<close> is 0. For 0, 7 and 512 the four bytes are \<open>"   0"\<close>, \<open>"   7"\<close> and \<open>" 512"\<close>.
\<close>

theorem header_format:
  assumes "n = unat (bodyLength m)" and "n \<le> 9999"
  shows "encodeHeader m =
           Inr (m\<lparr>data := (replicate (4 - length (dec_digits n)) CHR '' '' @ dec_digits n) @
                            drop header (data m)\<rparr>) \<and>
         length (replicate (4 - length (dec_digits n)) CHR '' '' @ dec_digits n) = header \<and>
         dec_digits n \<noteq> [] \<and> (\<forall>c\<in>set (dec_digits n). isdigit c) \<and>
         decimal_value (dec_digits n) = n \<and>
         (n \<noteq> 0 \<longrightarrow> hd (dec_digits n) \<noteq> CHR ''0'') \<and>
         encodeHeader \<lparr>data = d, bodyLength = 0\<rparr> =
           Inr \<lparr>data = ''   0'' @ drop header d, bodyLength = 0\<rparr> \<and>
         encodeHeader \<lparr>data = d, bodyLength = 7\<rparr> =
           Inr \<lparr>data = ''   7'' @ drop header d, bodyLength = 7\<rparr> \<and>
         encodeHeader \<lparr>data = d, bodyLength = 512\<rparr> =
           Inr \<lparr>data = '' 512'' @ drop header d, bodyLength = 512\<rparr>"
proof -
  have e: "encodeHeader m = Inr (m\<lparr>data := sprintf_4d (int n) @ drop header (data m)\<rparr>)"
    using assms by (intro encodeHeader_of_nat) simp_all
  have s: "sprintf_4d (int n) = replicate (4 - length (dec_digits n)) CHR '' '' @ dec_digits n"
    by (simp add: sprintf_4d_nonneg)
  have l: "length (replicate (4 - length (dec_digits n)) CHR '' '' @ dec_digits n) = header"
    unfolding s [symmetric] header_def using assms(2) by (intro length_sprintf_4d) simp_all
  have x0: "encodeHeader \<lparr>data = d, bodyLength = 0\<rparr> =
      Inr \<lparr>data = ''   0'' @ drop header d, bodyLength = 0\<rparr>"
    using encodeHeader_of_nat [of 0 "\<lparr>data = d, bodyLength = 0\<rparr>"] by (simp add: sprintf_4d_0)
  have x7: "encodeHeader \<lparr>data = d, bodyLength = 7\<rparr> =
      Inr \<lparr>data = ''   7'' @ drop header d, bodyLength = 7\<rparr>"
    using encodeHeader_of_nat [of 7 "\<lparr>data = d, bodyLength = 7\<rparr>"] by (simp add: sprintf_4d_7)
  have x512: "encodeHeader \<lparr>data = d, bodyLength = 512\<rparr> =
      Inr \<lparr>data = '' 512'' @ drop header d, bodyLength = 512\<rparr>"
    using encodeHeader_of_nat [of 512 "\<lparr>data = d, bodyLength = 512\<rparr>"]
    by (simp add: sprintf_4d_512)
  show ?thesis
    using e [unfolded s] l dec_digits_not_Nil [of n] dec_digits_isdigit [of _ n]
      decimal_value_dec_digits [of n] hd_dec_digits [of n] x0 x7 x512
    by blast
qed

theorem header_format_witness:
  "(42::nat) = unat (bodyLength \<lparr>data = replicate 516 NUL, bodyLength = 42\<rparr>) \<and> (42::nat) \<le> 9999 \<and>
   encodeHeader \<lparr>data = replicate 516 NUL, bodyLength = 42\<rparr> =
     Inr \<lparr>data = ''  42'' @ replicate 512 NUL, bodyLength = 42\<rparr> \<and>
   decimal_value ''42'' = 42"
proof -
  have d: "dec_digits 42 = ''42''"
    by code_simp
  have r: "replicate 2 CHR '' '' = ''  ''"
    by (simp add: numeral_2_eq_2)
  show ?thesis
    using header_format [of 42 "\<lparr>data = replicate 516 NUL, bodyLength = 42\<rparr>" "[]"]
    by (simp add: d r header_def)
qed

section \<open>Headers without a number\<close>

text \<open>
  C7. On a frame whose four header bytes are spaces, \<open>decodeHeader\<close> parses 0,
  returns true, and \<open>getBody\<close> then returns the empty string. The same holds
  when none of the four bytes is a digit, and when the first byte after the
  leading white space is neither a digit nor a sign, whatever follows it.
\<close>

theorem blank_header:
  assumes "length (data m) = header + maxBytes"
  shows "(take header (data m) = ''    '' \<longrightarrow>
            atoi (new_header_of m) = 0 \<and> decodeHeader m = (True, m\<lparr>bodyLength := 0\<rparr>) \<and>
            getBody (snd (decodeHeader m)) = Inr []) \<and>
         ((\<forall>c\<in>set (take header (data m)). \<not> isdigit c) \<longrightarrow>
            atoi (new_header_of m) = 0 \<and> decodeHeader m = (True, m\<lparr>bodyLength := 0\<rparr>) \<and>
            getBody (snd (decodeHeader m)) = Inr []) \<and>
         (take header (data m) = ws @ c # rest \<and> (\<forall>w\<in>set ws. isspace w) \<and>
          \<not> isspace c \<and> \<not> isdigit c \<and> c \<noteq> CHR ''-'' \<and> c \<noteq> CHR ''+'' \<longrightarrow>
            atoi (new_header_of m) = 0 \<and> decodeHeader m = (True, m\<lparr>bodyLength := 0\<rparr>) \<and>
            getBody (snd (decodeHeader m)) = Inr [])"
proof -
  have z: "atoi (new_header_of m) = 0 \<and> decodeHeader m = (True, m\<lparr>bodyLength := 0\<rparr>) \<and>
      getBody (snd (decodeHeader m)) = Inr []" if "atoi (new_header_of m) = 0"
    using that getBody_empty [OF assms] by (simp add: decodeHeader_def size_t_of_int_def)
  have nd: "atoi (new_header_of m) = 0" if "\<forall>c\<in>set (take header (data m)). \<not> isdigit c"
  proof -
    have "\<forall>c\<in>set (new_header_of m). \<not> isdigit c"
      using that set_c_str [of "take header (data m)"] by (auto simp: new_header_of_eq)
    then show ?thesis by (rule atoi_no_digit)
  qed
  have sp: "atoi (new_header_of m) = 0" if "take header (data m) = ''    ''"
    using that by (intro nd) (simp add: isdigit_def)
  have st: "atoi (new_header_of m) = 0"
    if "take header (data m) = ws @ c # rest" "\<forall>w\<in>set ws. isspace w"
      "\<not> isspace c" "\<not> isdigit c" "c \<noteq> CHR ''-''" "c \<noteq> CHR ''+''"
  proof (cases "c = NUL")
    case True
    then show ?thesis
      using that(1,2) by (simp add: new_header_of_eq c_str_spaces_then atoi_all_spaces)
  next
    case False
    then show ?thesis
      using that by (simp add: new_header_of_eq c_str_spaces_then atoi_stops)
  qed
  show ?thesis
    using z sp nd st by blast
qed

theorem blank_header_witness:
  "length (data ((received ''    '')\<lparr>bodyLength := 9\<rparr>)) = header + maxBytes \<and>
   take header (data ((received ''    '')\<lparr>bodyLength := 9\<rparr>)) = ''    '' \<and>
   decodeHeader ((received ''    '')\<lparr>bodyLength := 9\<rparr>) = (True, received ''    '') \<and>
   getBody (snd (decodeHeader ((received ''    '')\<lparr>bodyLength := 9\<rparr>))) = Inr []"
proof -
  let ?M = "(received ''    '')\<lparr>bodyLength := 9\<rparr>"
  have l: "length (data ?M) = header + maxBytes"
    by (simp add: received_def Message_default_def header_def)
  have h: "take header (data ?M) = ''    ''"
    by (simp add: received_def Message_default_def header_def)
  from blank_header [OF l, of "[]" "CHR ''x''" "[]"] h
  have r: "decodeHeader ?M = (True, ?M\<lparr>bodyLength := 0\<rparr>) \<and>
      getBody (snd (decodeHeader ?M)) = Inr []"
    by blast
  have e: "?M\<lparr>bodyLength := 0\<rparr> = received ''    ''"
    by (simp add: received_def Message_default_def)
  from r have "decodeHeader ?M = (True, received ''    '')"
    unfolding e by blast
  with l h r show ?thesis by blast
qed

section \<open>Decoding twice\<close>

text \<open>
  C8. \<open>decodeHeader\<close> leaves the buffer of every frame as it was, and a second
  call on its result returns the same boolean and the same frame, hence the same
  \<open>bodyLength_\<close>, as the first.
\<close>

theorem decodeHeader_idempotent:
  "data (snd (decodeHeader m)) = data m \<and>
   decodeHeader (snd (decodeHeader m)) = decodeHeader m \<and>
   fst (decodeHeader (snd (decodeHeader m))) = fst (decodeHeader m) \<and>
   bodyLength (snd (decodeHeader (snd (decodeHeader m)))) = bodyLength (snd (decodeHeader m))"
proof -
  have "decodeHeader (snd (decodeHeader m)) = decodeHeader m"
    by (simp add: decodeHeader_def new_header_of_bodyLength Let_def)
  then show ?thesis
    by (simp add: data_decodeHeader)
qed

theorem decodeHeader_idempotent_witness:
  "data (snd (decodeHeader (received '' 512''))) = data (received '' 512'') \<and>
   decodeHeader (snd (decodeHeader (received '' 512''))) =
     (True, (received '' 512'')\<lparr>bodyLength := 512\<rparr>) \<and>
   decodeHeader (received '' 512'') = (True, (received '' 512'')\<lparr>bodyLength := 512\<rparr>)"
proof -
  have "decodeHeader (received '' 512'') = (True, (received '' 512'')\<lparr>bodyLength := 512\<rparr>)"
    by (simp add: eval_defs)
  with decodeHeader_idempotent [of "received '' 512''"] show ?thesis
    by simp
qed

section \<open>The views\<close>

text \<open>
  C9, as amended. For every frame whose \<open>bodyLength_\<close> is at most 512,
  \<open>getData\<close> returns the 4 header bytes followed by the first \<open>bodyLength_\<close> bytes
  behind them, \<open>header + bodyLength_\<close> bytes in all, and \<open>getBody\<close> returns those
  \<open>bodyLength_\<close> bytes behind the header, the empty string when \<open>bodyLength_\<close>
  is 0.
\<close>

theorem view_lengths:
  assumes "unat (bodyLength m) \<le> maxBytes" and "length (data m) = header + maxBytes"
  shows "getData m = Inr (take header (data m) @ take (unat (bodyLength m)) (drop header (data m))) \<and>
         length (take header (data m) @ take (unat (bodyLength m)) (drop header (data m))) =
           header + unat (bodyLength m) \<and>
         getBody m = Inr (take (unat (bodyLength m)) (drop header (data m))) \<and>
         length (take (unat (bodyLength m)) (drop header (data m))) = unat (bodyLength m) \<and>
         (bodyLength m = 0 \<longrightarrow> getBody m = Inr [])"
proof -
  have g: "getData m = Inr (take header (data m) @ take (unat (bodyLength m)) (drop header (data m)))"
    using assms by (simp add: getData_small take_add)
  have b: "getBody m = Inr (take (unat (bodyLength m)) (drop header (data m)))"
    using assms by (rule getBody_small)
  have lb: "length (take (unat (bodyLength m)) (drop header (data m))) = unat (bodyLength m)"
    using assms by simp
  have lg: "length (take header (data m) @ take (unat (bodyLength m)) (drop header (data m))) =
      header + unat (bodyLength m)"
    using assms by simp
  have z: "bodyLength m = 0 \<longrightarrow> getBody m = Inr []"
    using b by simp
  from g lg b lb z show ?thesis by blast
qed

theorem view_lengths_witness:
  "unat (bodyLength \<lparr>data = ''   2hi'' @ replicate 510 NUL, bodyLength = 2\<rparr>) \<le> maxBytes \<and>
   length (data \<lparr>data = ''   2hi'' @ replicate 510 NUL, bodyLength = 2\<rparr>) = header + maxBytes \<and>
   getData \<lparr>data = ''   2hi'' @ replicate 510 NUL, bodyLength = 2\<rparr> = Inr ''   2hi'' \<and>
   getBody \<lparr>data = ''   2hi'' @ replicate 510 NUL, bodyLength = 2\<rparr> = Inr ''hi''"
proof -
  let ?M = "\<lparr>data = ''   2hi'' @ replicate 510 NUL, bodyLength = 2\<rparr>"
  have u: "unat (bodyLength ?M) \<le> maxBytes"
    by (simp add: maxBytes_def)
  have l: "length (data ?M) = header + maxBytes"
    by (simp add: header_def maxBytes_def)
  from view_lengths [OF u l] u l show ?thesis
    by (simp add: header_def)
qed

text \<open>
  C9 as stated, for every frame, fails on the frame \<open>decodeHeader\<close> leaves after
  it has accepted the header \<open>"  -1"\<close>: \<open>header + bodyLength_\<close> wraps around to 3,
  \<open>getData\<close> returns 3 bytes, and \<open>substr\<close> in \<open>getBody\<close> throws.
\<close>

theorem views_after_negative_header:
  "fst (decodeHeader (received ''  -1'')) \<and>
   bodyLength (snd (decodeHeader (received ''  -1''))) = 18446744073709551615 \<and>
   getData (snd (decodeHeader (received ''  -1''))) = Inr ''  -'' \<and>
   getBody (snd (decodeHeader (received ''  -1''))) = Inl out_of_range"
  by (simp add: eval_defs getData_def getBody_def int_of_size_t_def substr_def)

section \<open>What the result of decoding depends on\<close>

text \<open>
  C10. Two frames whose first 4 bytes are equal get the same boolean and the
  same \<open>bodyLength_\<close> from \<open>decodeHeader\<close>, whatever their body bytes and their
  lengths before the call.
\<close>

theorem decodeHeader_header_only:
  assumes "take header (data m1) = take header (data m2)"
  shows "fst (decodeHeader m1) = fst (decodeHeader m2) \<and>
         bodyLength (snd (decodeHeader m1)) = bodyLength (snd (decodeHeader m2))"
proof -
  have "new_header_of m1 = new_header_of m2"
    by (simp add: new_header_of_eq assms)
  then show ?thesis
    by (simp add: decodeHeader_def Let_def)
qed

theorem decodeHeader_header_only_witness:
  "take header (data (received '' 512'')) =
     take header (data \<lparr>data = '' 512'' @ replicate 512 CHR ''z'', bodyLength = 99\<rparr>) \<and>
   data (received '' 512'') \<noteq> data \<lparr>data = '' 512'' @ replicate 512 CHR ''z'', bodyLength = 99\<rparr> \<and>
   fst (decodeHeader (received '' 512'')) =
     fst (decodeHeader \<lparr>data = '' 512'' @ replicate 512 CHR ''z'', bodyLength = 99\<rparr>) \<and>
   bodyLength (snd (decodeHeader (received '' 512''))) =
     bodyLength (snd (decodeHeader \<lparr>data = '' 512'' @ replicate 512 CHR ''z'', bodyLength = 99\<rparr>))"
proof -
  let ?M = "\<lparr>data = '' 512'' @ replicate 512 CHR ''z'', bodyLength = 99\<rparr>"
  have h: "take header (data (received '' 512'')) = take header (data ?M)"
    by (simp add: received_def Message_default_def header_def)
  have "hd (drop 4 (data (received '' 512''))) \<noteq> hd (drop 4 (data ?M))"
    by (simp add: received_def Message_default_def maxBytes_def NUL_def hd_replicate)
  then have d: "data (received '' 512'') \<noteq> data ?M"
    by metis
  from h d decodeHeader_header_only [OF h] show ?thesis by blast
qed

end
